theory Spec2Isabelle
  imports Complex_Main
begin

section \<open>Lifecycle orchestrator of the TTS bot (main.py)\<close>

text \<open>
  The file main.py is asynchronous Python on top of asyncio and discord.py. The
  embedding keeps its control flow and makes every effect explicit:
  \<^item> a raised exception is a value of \<open>exn\<close>; what matters to the code is
    whether \<^verbatim>\<open>except Exception\<close> catches it, its class name and its text;
  \<^item> the result of one \<^verbatim>\<open>await\<close> on an external collaborator is an
    \<open>outcome\<close> supplied by an environment record: it returns, raises, or never
    resumes;
  \<^item> an awaitable handed to \<^verbatim>\<open>asyncio.gather\<close> is an \<open>awaitable\<close>: it settles
    at a logical time with a result or an exception, or never settles;
  \<^item> everything observable (console lines, webhook notices, factory calls, close
    calls, extension activations) is appended to a list of events.
\<close>

subsection \<open>Exceptions and outcomes\<close>

datatype exn = Exn (is_Exception: bool) (type_name: string) (exn_str: string)

text \<open>
  \<open>is_Exception\<close> says whether the class derives from \<^verbatim>\<open>Exception\<close>
  (so that \<^verbatim>\<open>except Exception\<close> catches it) or only from
  \<^verbatim>\<open>BaseException\<close>, as \<^verbatim>\<open>asyncio.CancelledError\<close> (Python 3.8 and
  later) and \<^verbatim>\<open>KeyboardInterrupt\<close> do; \<open>exn_str\<close> is \<^verbatim>\<open>str(e)\<close>.
\<close>

definition CancelledError :: exn where
  "CancelledError = Exn False ''CancelledError'' ''''"

definition InvalidStateError :: exn where
  "InvalidStateError = Exn True ''InvalidStateError'' ''Exception is not set.''"

definition TimeoutError :: exn where
  "TimeoutError = Exn True ''TimeoutError'' ''''"

definition KeyError :: "string \<Rightarrow> exn" where
  "KeyError k = Exn True ''KeyError'' ([CHR 0x27] @ k @ [CHR 0x27])"

definition IndexError :: exn where
  "IndexError = Exn True ''IndexError'' ''list index out of range''"

definition ValueError :: exn where
  "ValueError = Exn True ''ValueError'' ''not enough values to unpack''"

text \<open>\<^verbatim>\<open>get_error_string(e)\<close>: \<^verbatim>\<open>f"{type(e).__name__}: {e}"\<close>.\<close>

definition get_error_string :: "exn \<Rightarrow> string" where
  "get_error_string e = type_name e @ '': '' @ exn_str e"

datatype 'a outcome = Returns 'a | Raises exn | Hangs

subsection \<open>Messages, venues and the invocation context\<close>

record guild =
  guild_id :: nat
  unavailable :: bool

text \<open>
  \<open>author_bot\<close> is \<^verbatim>\<open>message.author.bot\<close>; \<open>guild\<close> is
  \<^verbatim>\<open>message.guild\<close>, \<open>None\<close> for a direct message.
\<close>

record message =
  author_bot :: bool
  guild :: "guild option"
  content :: string

datatype ctx_class = TypedGuildContext | TypedContext

text \<open>
  The context built by \<^verbatim>\<open>get_context\<close>: \<open>ctx_guild\<close> is
  \<^verbatim>\<open>ctx.guild\<close> (the guild of the message), \<open>command\<close> the command the
  message names under the resolved prefix, if any.
\<close>

record typed_context =
  ctx_message :: message
  ctx_cls :: ctx_class
  ctx_guild :: "guild option"
  ctx_prefix :: string
  command :: "string option"

subsection \<open>Prefix resolution\<close>

text \<open>The stored per-guild settings rows: guild id to column to value.\<close>

type_synonym settings = "nat \<rightharpoonup> (string \<rightharpoonup> string)"

text \<open>
  Modelled from the spec: \<^verbatim>\<open>bot.settings.get(guild, keys)\<close> is
  \<^verbatim>\<open>GeneralSettings.get\<close> of extensions/database_handler, which is not among
  the source files. The spec (4.4, 8) says the trigger of a shared venue is looked up in
  the per-venue settings store keyed by the venue identifier, and that an absent or
  unregistered venue configuration means "use default", never an error; the default
  trigger is "-". One value is returned per requested key.
\<close>

definition default_setting :: "string \<Rightarrow> string" where
  "default_setting k = (if k = ''prefix'' then ''-'' else '''')"

definition settings_get :: "settings \<Rightarrow> guild \<Rightarrow> string list \<Rightarrow> string list" where
  "settings_get store g keys =
     map (\<lambda>k. case store (guild_id g) of
                None \<Rightarrow> default_setting k
              | Some row \<Rightarrow> (case row k of None \<Rightarrow> default_setting k | Some v \<Rightarrow> v))
         keys"

text \<open>Python's \<^verbatim>\<open>xs[0]\<close>: IndexError on the empty list.\<close>

definition index0 :: "'a list \<Rightarrow> exn + 'a" where
  "index0 xs = (case xs of [] \<Rightarrow> Inl IndexError | x # _ \<Rightarrow> Inr x)"

text \<open>
  \<^verbatim>\<open>
  async def prefix(bot, message):
      if message.guild:
          return (await bot.settings.get(message.guild, ["prefix"]))[0]
      return "-"
  \<close>
\<close>

definition prefix :: "settings \<Rightarrow> message \<Rightarrow> exn + string" where
  "prefix store m =
     (case guild m of
        Some g \<Rightarrow> index0 (settings_get store g [''prefix''])
      | None \<Rightarrow> Inr ''-'')"

subsection \<open>Command dispatch\<close>

text \<open>
  \<^verbatim>\<open>
  async def only_avaliable(ctx):
      return not ctx.guild.unavailable if ctx.guild else True
  \<close>
\<close>

definition only_avaliable :: "typed_context \<Rightarrow> bool" where
  "only_avaliable ctx =
     (case ctx_guild ctx of Some g \<Rightarrow> \<not> unavailable g | None \<Rightarrow> True)"

text \<open>
  The part of the bot that dispatch reads: the settings store behind
  \<^verbatim>\<open>command_prefix\<close>, the global checks registered with
  \<^verbatim>\<open>add_check\<close>, and \<open>resolve\<close>, the command table of the framework (which
  command, if any, a message text names under a prefix).
\<close>

record dispatcher =
  store :: settings
  checks :: "(typed_context \<Rightarrow> bool) list"
  resolve :: "string \<Rightarrow> string \<Rightarrow> string option"

definition add_check :: "dispatcher \<Rightarrow> (typed_context \<Rightarrow> bool) \<Rightarrow> dispatcher" where
  "add_check d f = d\<lparr>checks := checks d @ [f]\<rparr>"

datatype dispatch_event =
    GetContext ctx_class
  | InvokeEntered
  | CheckFailure string
  | CommandRun string

text \<open>
  \<^verbatim>\<open>bot.get_context(message, cls)\<close> of the framework: it resolves the prefix
  through \<^verbatim>\<open>command_prefix\<close> (here \<open>prefix\<close>) and looks the command up.
\<close>

definition get_context :: "dispatcher \<Rightarrow> message \<Rightarrow> ctx_class \<Rightarrow> exn + typed_context" where
  "get_context d m cls =
     (case prefix (store d) m of
        Inl e \<Rightarrow> Inl e
      | Inr p \<Rightarrow>
          Inr \<lparr>ctx_message = m, ctx_cls = cls, ctx_guild = guild m, ctx_prefix = p,
               command = resolve d p (content m)\<rparr>)"

text \<open>
  \<^verbatim>\<open>bot.invoke(ctx)\<close> of the command framework (discord.py, a library outside
  the repository), by its contract: every registered check is called with the context
  before the command's callback, and the callback runs only when all of them return
  true; otherwise the framework raises and handles a check failure itself. A context
  without a command runs nothing. \<open>InvokeEntered\<close> records that
  \<^verbatim>\<open>bot.invoke\<close> was called, \<open>CommandRun\<close> that the callback of the command ran.
\<close>

definition invoke :: "dispatcher \<Rightarrow> typed_context \<Rightarrow> dispatch_event list" where
  "invoke d ctx =
     InvokeEntered #
       (case command ctx of
          None \<Rightarrow> []
        | Some c \<Rightarrow> if list_all (\<lambda>chk. chk ctx) (checks d) then [CommandRun c] else [CheckFailure c])"

text \<open>
  \<^verbatim>\<open>
  async def process_commands(self, message):
      if message.author.bot:
          return
      ctx_class = utils.TypedGuildContext if message.guild else utils.TypedContext
      ctx = await self.get_context(message=message, cls=ctx_class)
      await self.invoke(ctx)
  \<close>
  The result is the trace of dispatch steps and the exception raised, if any.
\<close>

definition process_commands :: "dispatcher \<Rightarrow> message \<Rightarrow> dispatch_event list \<times> exn option" where
  "process_commands d m =
     (if author_bot m then ([], None)
      else
        let ctx_class = (if guild m \<noteq> None then TypedGuildContext else TypedContext) in
        case get_context d m ctx_class of
          Inl e \<Rightarrow> ([GetContext ctx_class], Some e)
        | Inr ctx \<Rightarrow> (GetContext ctx_class # invoke d ctx, None))"

subsection \<open>Awaitables, gather and wait_for\<close>

text \<open>
  An awaitable given to \<^verbatim>\<open>asyncio.gather\<close> settles at a logical time (counted
  from the moment the gather is awaited) with an exception (\<open>Inl\<close>) or a value
  (\<open>Inr\<close>), or it never settles. The times only order the settlements and
  compare them with a timeout.
\<close>

datatype 'a awaitable = Settles rat "exn + 'a" | Never

text \<open>
  The earliest failure among the awaitables, the earlier argument winning a tie.
\<close>

fun first_failure :: "'a awaitable list \<Rightarrow> (rat \<times> exn) option" where
  "first_failure [] = None"
| "first_failure (Settles t (Inl e) # aws) =
     (case first_failure aws of
        Some (t', e') \<Rightarrow> if t' < t then Some (t', e') else Some (t, e)
      | None \<Rightarrow> Some (t, e))"
| "first_failure (Settles t (Inr v) # aws) = first_failure aws"
| "first_failure (Never # aws) = first_failure aws"

text \<open>
  When every awaitable settles with a value: the time of the last settlement and the
  values in argument order.
\<close>

fun all_results :: "'a awaitable list \<Rightarrow> (rat \<times> 'a list) option" where
  "all_results [] = Some (0, [])"
| "all_results [Settles t (Inr v)] = Some (t, [v])"
| "all_results (Settles t (Inr v) # aws) =
     (case all_results aws of Some (t', vs) \<Rightarrow> Some (max t t', v # vs) | None \<Rightarrow> None)"
| "all_results (Settles t (Inl e) # aws) = None"
| "all_results (Never # aws) = None"

text \<open>
  \<^verbatim>\<open>asyncio.gather(*aws)\<close> with the default \<^verbatim>\<open>return_exceptions=False\<close>, as
  both calls of main.py use it: the first exception raised by a child is propagated at
  once to the awaiter of the gather (the other children are neither cancelled nor
  awaited); without an exception the gather settles with the list of values once every
  child has settled, and never when a child never settles.
\<close>

definition gather :: "'a awaitable list \<Rightarrow> 'a list awaitable" where
  "gather aws =
     (case first_failure aws of
        Some (t, e) \<Rightarrow> Settles t (Inl e)
      | None \<Rightarrow>
          (case all_results aws of
             Some (t, vs) \<Rightarrow> Settles t (Inr vs)
           | None \<Rightarrow> Never))"


text \<open>
  \<^verbatim>\<open>await asyncio.wait_for(aw, timeout)\<close>: the result or the exception of \<open>aw\<close>
  when it settles by the timeout; otherwise \<open>aw\<close> is cancelled and
  \<^verbatim>\<open>TimeoutError\<close> is raised. The cancelled awaitable is taken to honour the
  cancellation; how long that takes is outside this model.
\<close>

definition wait_for :: "'a awaitable \<Rightarrow> rat \<Rightarrow> 'a outcome" where
  "wait_for aw timeout =
     (case aw of
        Settles t r \<Rightarrow>
          if t \<le> timeout then (case r of Inl e \<Rightarrow> Raises e | Inr v \<Rightarrow> Returns v)
          else Raises TimeoutError
      | Never \<Rightarrow> Raises TimeoutError)"



subsection \<open>Events\<close>

datatype resource = Pool | Cache | Gtts | Connection

datatype notice = StartingNotice | ReadyNotice | ShutdownNotice string

text \<open>
  \<open>Print\<close>: a line on standard output; \<open>PrintException\<close>:
  \<^verbatim>\<open>traceback.print_exception\<close>; \<open>Send c n\<close>: notice \<open>n\<close> delivered through
  the webhook of channel \<open>c\<close>; \<open>Created\<close>: the synchronous factory of a handle
  returned; \<open>Started\<close>: the creation of a handle was handed to the gather;
  \<open>CloseCalled\<close>: the close operation of a resource was started;
  \<open>LoadExtension\<close>: \<^verbatim>\<open>load_extension\<close> was called with that module name;
  \<open>Login\<close>: \<^verbatim>\<open>super().start\<close> was entered.
\<close>

datatype event =
    Print string
  | PrintException exn
  | Send string notice
  | Created resource
  | Started resource
  | CloseCalled resource
  | LoadExtension string
  | Login

text \<open>
  \<^verbatim>\<open>await bot.channels[name].send(...)\<close>: a missing key raises KeyError; the
  delivery itself is the collaborator \<open>deliver\<close>, asked with the webhook URL.
\<close>

definition channel_send ::
  "(string \<rightharpoonup> string) \<Rightarrow> (string \<Rightarrow> notice \<Rightarrow> unit outcome) \<Rightarrow> string \<Rightarrow> notice
     \<Rightarrow> event list \<times> unit outcome" where
  "channel_send chans deliver name n =
     (case chans name of
        None \<Rightarrow> ([], Raises (KeyError name))
      | Some url \<Rightarrow>
          (case deliver url n of
             Returns u \<Rightarrow> ([Send name n], Returns ())
           | Raises e \<Rightarrow> ([], Raises e)
           | Hangs \<Rightarrow> ([], Hangs)))"

subsection \<open>The extension loader\<close>

text \<open>\<^verbatim>\<open>s.endswith(suf)\<close> and the module name \<^verbatim>\<open>f"{folder}.{ext[:-3]}"\<close>.\<close>

definition endswith :: "string \<Rightarrow> string \<Rightarrow> bool" where
  "endswith s suf = (length suf \<le> length s \<and> drop (length s - length suf) s = suf)"

definition extension_name :: "string \<Rightarrow> string \<Rightarrow> string" where
  "extension_name folder ext = folder @ ''.'' @ take (length ext - 3) ext"

definition extension_names :: "string \<Rightarrow> string list \<Rightarrow> string list" where
  "extension_names folder files =
     map (extension_name folder) (filter (\<lambda>e. endswith e ''.py'') files)"

text \<open>
  The loop over the module names. \<open>le loaded n\<close> is \<^verbatim>\<open>self.load_extension(n)\<close>
  called when the modules \<open>loaded\<close> are active: \<open>Some e\<close> when it raises. An
  exception leaves the loop, so the names after it are never passed to
  \<^verbatim>\<open>load_extension\<close>. The result is the active modules, the calls made, and
  the exception.
\<close>

fun load_loop ::
  "(string list \<Rightarrow> string \<Rightarrow> exn option) \<Rightarrow> string list \<Rightarrow> string list
     \<Rightarrow> string list \<times> event list \<times> exn option" where
  "load_loop le loaded [] = (loaded, [], None)"
| "load_loop le loaded (n # ns) =
     (case le loaded n of
        Some e \<Rightarrow> (loaded, [LoadExtension n], Some e)
      | None \<Rightarrow>
          (case load_loop le (loaded @ [n]) ns of
             (l, evs, r) \<Rightarrow> (l, LoadExtension n # evs, r)))"

text \<open>
  \<^verbatim>\<open>
  def load_extensions(self, folder):
      filered_exts = filter(lambda e: e.endswith(".py"), listdir(folder))
      for ext in filered_exts:
          self.load_extension(f"{folder}.{ext[:-3]}")
  \<close>
  \<open>ls\<close> is \<^verbatim>\<open>os.listdir\<close>, which raises when the folder cannot be read.
\<close>

definition load_extensions ::
  "(string list \<Rightarrow> string \<Rightarrow> exn option) \<Rightarrow> (string \<Rightarrow> exn + string list) \<Rightarrow> string list
     \<Rightarrow> string \<Rightarrow> string list \<times> event list \<times> exn option" where
  "load_extensions le ls loaded folder =
     (case ls folder of
        Inl e \<Rightarrow> (loaded, [], Some e)
      | Inr files \<Rightarrow> load_loop le loaded (extension_names folder files))"

subsection \<open>TTSBot.start\<close>

text \<open>
  The attributes of the bot that start writes. Handles are opaque numbers.
  \<open>user\<close> is \<^verbatim>\<open>bot.user\<close>, set by the login inside \<^verbatim>\<open>super().start\<close>.
\<close>

record ttsbot =
  cache_db :: "nat option"
  pool :: "nat option"
  gtts :: "nat option"
  channels :: "string \<rightharpoonup> string"
  extensions :: "string list"
  user :: "string option"

text \<open>
  The collaborators of start: the Redis client factory (a plain call), the two
  coroutines given to the gather, the configured webhook URLs and
  \<^verbatim>\<open>Webhook.from_url\<close> (\<open>Some e\<close> when it rejects a URL), the directory
  listing and \<^verbatim>\<open>load_extension\<close>, webhook delivery,
  \<^verbatim>\<open>do_normal_updates\<close>, and the two halves of \<^verbatim>\<open>super().start\<close>: the
  login, which yields the account, and the connection, which serves until closed.
  The configuration is taken to have its sections.
\<close>

record start_env =
  redis_from_url :: "exn + nat"
  create_pool :: "nat awaitable"
  gtts_setup :: "nat awaitable"
  webhook_urls :: "(string \<times> string) list"
  webhook_from_url :: "string \<Rightarrow> exn option"
  listdir :: "string \<Rightarrow> exn + string list"
  load_extension :: "string list \<Rightarrow> string \<Rightarrow> exn option"
  deliver :: "string \<Rightarrow> notice \<Rightarrow> unit outcome"
  normal_updates :: "unit outcome"
  login :: "string outcome"
  connect :: "unit outcome"

text \<open>
  The acquisition phase:
  \<^verbatim>\<open>
  self.cache_db = aioredis.from_url(**cache_info)
  self.pool, self.gtts = await asyncio.gather(
      cast(Awaitable[Pool], asyncpg.create_pool(**db_info)),
      asyncgTTS.setup(premium=False, session=self.session, base_url=None),
  )
  \<close>
  The Redis client is made by a synchronous call before the gather exists; an exception
  of that call leaves start before either coroutine is created. The result says when the
  awaiting code resumes, and how. There is no handler around these statements and no
  close call in start.
\<close>

definition acquire :: "start_env \<Rightarrow> ttsbot \<Rightarrow> event list \<times> ttsbot \<times> unit awaitable" where
  "acquire env b =
     (case redis_from_url env of
        Inl e \<Rightarrow> ([], b, Settles 0 (Inl e))
      | Inr c \<Rightarrow>
          let b1 = b\<lparr>cache_db := Some c\<rparr>;
              evs = [Created Cache, Started Pool, Started Gtts]
          in (case gather [create_pool env, gtts_setup env] of
                Never \<Rightarrow> (evs, b1, Never)
              | Settles t (Inl e) \<Rightarrow> (evs, b1, Settles t (Inl e))
              | Settles t (Inr vs) \<Rightarrow>
                  (case vs of
                     [p, g] \<Rightarrow> (evs, b1\<lparr>pool := Some p, gtts := Some g\<rparr>, Settles t (Inr ()))
                   | _ \<Rightarrow> (evs, b1, Settles t (Inl ValueError)))))"

text \<open>
  \<^verbatim>\<open>
  for channel_name, webhook_url in self.config["Webhook URLs"].items():
      adapter = discord.AsyncWebhookAdapter(session=self.session)
      self.channels[channel_name] = discord.Webhook.from_url(url=webhook_url, adapter=adapter)
  \<close>
\<close>

fun fill_channels ::
  "(string \<Rightarrow> exn option) \<Rightarrow> (string \<times> string) list \<Rightarrow> (string \<rightharpoonup> string)
     \<Rightarrow> (string \<rightharpoonup> string) \<times> exn option" where
  "fill_channels f [] ch = (ch, None)"
| "fill_channels f ((name, url) # rest) ch =
     (case f url of
        Some e \<Rightarrow> (ch, Some e)
      | None \<Rightarrow> fill_channels f rest (ch(name \<mapsto> url)))"

text \<open>
  The last three statements of start:
  \<^verbatim>\<open>
  await self.channels["logs"].send("Starting TTS Bot!")
  await automatic_update.do_normal_updates(self)
  await super().start(token, *args, **kwargs)
  \<close>
\<close>

definition announce_and_serve :: "start_env \<Rightarrow> ttsbot \<Rightarrow> event list \<times> ttsbot \<times> unit outcome" where
  "announce_and_serve env b =
     (case channel_send (channels b) (deliver env) ''logs'' StartingNotice of
        (evs, Raises e) \<Rightarrow> (evs, b, Raises e)
      | (evs, Hangs) \<Rightarrow> (evs, b, Hangs)
      | (evs, Returns u) \<Rightarrow>
          (case normal_updates env of
             Raises e \<Rightarrow> (evs, b, Raises e)
           | Hangs \<Rightarrow> (evs, b, Hangs)
           | Returns u \<Rightarrow>
               (case login env of
                  Raises e \<Rightarrow> (evs @ [Login], b, Raises e)
                | Hangs \<Rightarrow> (evs @ [Login], b, Hangs)
                | Returns account \<Rightarrow> (evs @ [Login], b\<lparr>user := Some account\<rparr>, connect env))))"

text \<open>
  The statements of start after the acquisition phase: the webhooks, the two
  \<^verbatim>\<open>load_extensions\<close> calls (cogs, then extensions), then the announcement and
  the serve call.
\<close>

definition configure_and_serve :: "start_env \<Rightarrow> ttsbot \<Rightarrow> event list \<times> ttsbot \<times> unit outcome" where
  "configure_and_serve env b =
     (case fill_channels (webhook_from_url env) (webhook_urls env) (channels b) of
        (ch, Some e) \<Rightarrow> ([], b\<lparr>channels := ch\<rparr>, Raises e)
      | (ch, None) \<Rightarrow>
          let b1 = b\<lparr>channels := ch\<rparr> in
          (case load_extensions (load_extension env) (listdir env) (extensions b1) ''cogs'' of
             (l1, ev1, Some e) \<Rightarrow> (ev1, b1\<lparr>extensions := l1\<rparr>, Raises e)
           | (l1, ev1, None) \<Rightarrow>
               (case load_extensions (load_extension env) (listdir env) l1 ''extensions'' of
                  (l2, ev2, Some e) \<Rightarrow> (ev1 @ ev2, b1\<lparr>extensions := l2\<rparr>, Raises e)
                | (l2, ev2, None) \<Rightarrow>
                    (case announce_and_serve env (b1\<lparr>extensions := l2\<rparr>) of
                       (ev3, b2, r) \<Rightarrow> (ev1 @ ev2 @ ev3, b2, r)))))"

text \<open>\<^verbatim>\<open>TTSBot.start\<close>: the events, the bot afterwards, and how the call ends.\<close>

definition start :: "start_env \<Rightarrow> ttsbot \<Rightarrow> event list \<times> ttsbot \<times> unit outcome" where
  "start env b =
     (case acquire env b of
        (ev0, b1, Never) \<Rightarrow> (ev0, b1, Hangs)
      | (ev0, b1, Settles t (Inl e)) \<Rightarrow> (ev0, b1, Raises e)
      | (ev0, b1, Settles t (Inr u)) \<Rightarrow>
          (case configure_and_serve env b1 of
             (ev1, b2, r) \<Rightarrow> (ev0 @ ev1, b2, r)))"

text \<open>The handles the bot holds in its attributes.\<close>

definition held :: "ttsbot \<Rightarrow> (resource \<times> nat) list" where
  "held b =
     (case cache_db b of Some h \<Rightarrow> [(Cache, h)] | None \<Rightarrow> []) @
     (case pool b of Some h \<Rightarrow> [(Pool, h)] | None \<Rightarrow> []) @
     (case gtts b of Some h \<Rightarrow> [(Gtts, h)] | None \<Rightarrow> [])"

text \<open>The close calls recorded in a trace.\<close>

fun releases :: "event list \<Rightarrow> resource list" where
  "releases [] = []"
| "releases (CloseCalled r # evs) = r # releases evs"
| "releases (_ # evs) = releases evs"

subsection \<open>The readiness race and the shutdown\<close>

datatype task = BotTask | ReadyTask

text \<open>
  How a task ends: it returns, raises, is cancelled, or is not done (yet, or ever).
\<close>

datatype task_end = Finished | Failed exn | Cancelled | Running

text \<open>
  \<^verbatim>\<open>task.exception()\<close>: the exception of a done task or \<open>None\<close>; it raises
  CancelledError for a cancelled task and InvalidStateError for one that is not done.
\<close>

definition task_exception :: "task_end \<Rightarrow> exn + exn option" where
  "task_exception st =
     (case st of
        Finished \<Rightarrow> Inr None
      | Failed e \<Rightarrow> Inr (Some e)
      | Cancelled \<Rightarrow> Inl CancelledError
      | Running \<Rightarrow> Inl InvalidStateError)"

text \<open>How a block of statements completes.\<close>

datatype completion = Normal | Return | Raise exn | Hang

text \<open>\<^verbatim>\<open>await task\<close>.\<close>

definition await_task :: "task_end \<Rightarrow> completion" where
  "await_task st =
     (case st of
        Finished \<Rightarrow> Normal
      | Failed e \<Rightarrow> Raise e
      | Cancelled \<Rightarrow> Raise CancelledError
      | Running \<Rightarrow> Hang)"

text \<open>
  The collaborators of \<^verbatim>\<open>_real_main\<close>, once the bot is constructed and the check
  registered: \<^verbatim>\<open>do_early_updates\<close>; the \<open>done\<close> set that
  \<^verbatim>\<open>asyncio.wait(..., return_when=FIRST_COMPLETED)\<close> returns (or the exception
  thrown into the wait, as a cancellation of the main task is); how the task of
  \<^verbatim>\<open>bot.start\<close> ends; \<^verbatim>\<open>bot.user\<close> and \<^verbatim>\<open>bot.channels\<close> as start
  left them; webhook delivery; and the three close operations. \<^verbatim>\<open>bot.pool\<close>
  and \<^verbatim>\<open>bot.cache_db\<close> exist whenever \<^verbatim>\<open>bot.user\<close> does, since start assigns
  them before it logs in.
\<close>

record main_env =
  early_updates :: "unit outcome"
  race :: "task list outcome"
  bot_task :: task_end
  bot_user :: "string option"
  bot_channels :: "string \<rightharpoonup> string"
  webhook_deliver :: "string \<Rightarrow> notice \<Rightarrow> unit outcome"
  pool_close :: "unit awaitable"
  cache_close :: "unit awaitable"
  bot_close :: "unit awaitable"

definition user_str :: "string option \<Rightarrow> string" where
  "user_str u = (case u of None \<Rightarrow> ''None'' | Some n \<Rightarrow> n)"

text \<open>
  The body of the \<^verbatim>\<open>try\<close>:
  \<^verbatim>\<open>
  print("\nLogging into Discord...")
  ready_task = asyncio.create_task(bot.wait_until_ready())
  bot_task = asyncio.create_task(bot.start(token=config["Main"]["Token"]))
  done, _ = await asyncio.wait((bot_task, ready_task), return_when=asyncio.FIRST_COMPLETED)
  if bot_task in done:
      error = bot_task.exception()
      print("Bot shutdown before ready!")
      if error:
          traceback.print_exception(type(error), error, error.__traceback__)
      return
  print(f"Logged in as {bot.user} and ready!")
  await bot.channels["logs"].send(f"Started and ready! Took `{monotonic() - start_time:.2f} seconds`")
  await bot_task
  \<close>
\<close>

definition try_body :: "main_env \<Rightarrow> event list \<times> completion" where
  "try_body env =
     (let ev0 = [Print (CHR 0x0A # ''Logging into Discord...'')] in
      case race env of
        Raises e \<Rightarrow> (ev0, Raise e)
      | Hangs \<Rightarrow> (ev0, Hang)
      | Returns done \<Rightarrow>
          if BotTask \<in> set done then
            (case task_exception (bot_task env) of
               Inl e \<Rightarrow> (ev0, Raise e)
             | Inr error \<Rightarrow>
                 (ev0 @ [Print ''Bot shutdown before ready!''] @
                    (case error of Some e \<Rightarrow> [PrintException e] | None \<Rightarrow> []),
                  Return))
          else
            (let ev1 = ev0 @ [Print (''Logged in as '' @ user_str (bot_user env) @ '' and ready!'')] in
             case channel_send (bot_channels env) (webhook_deliver env) ''logs'' ReadyNotice of
               (evs, Raises e) \<Rightarrow> (ev1 @ evs, Raise e)
             | (evs, Hangs) \<Rightarrow> (ev1 @ evs, Hang)
             | (evs, Returns u) \<Rightarrow> (ev1 @ evs, await_task (bot_task env))))"

text \<open>
  \<^verbatim>\<open>
  except Exception as e:
      print(get_error_string(e))
  \<close>
\<close>

definition except_Exception :: "completion \<Rightarrow> event list \<times> completion" where
  "except_Exception c =
     (case c of
        Raise e \<Rightarrow> if is_Exception e then ([Print (get_error_string e)], Normal) else ([], Raise e)
      | _ \<Rightarrow> ([], c))"

text \<open>
  \<^verbatim>\<open>
  finally:
      if not bot.user:
          return
      await bot.channels["logs"].send(f"{bot.user.mention} is shutting down.")
      await asyncio.wait_for(asyncio.gather(
          bot.pool.close(), bot.cache_db.close(), bot.close()
      ), timeout=5)
  \<close>
\<close>

definition finally_block :: "main_env \<Rightarrow> event list \<times> completion" where
  "finally_block env =
     (case bot_user env of
        None \<Rightarrow> ([], Return)
      | Some u \<Rightarrow>
          (case channel_send (bot_channels env) (webhook_deliver env) ''logs'' (ShutdownNotice u) of
             (evs, Raises e) \<Rightarrow> (evs, Raise e)
           | (evs, Hangs) \<Rightarrow> (evs, Hang)
           | (evs, Returns x) \<Rightarrow>
               (evs @ [CloseCalled Pool, CloseCalled Cache, CloseCalled Connection],
                case wait_for (gather [pool_close env, cache_close env, bot_close env]) 5 of
                  Returns vs \<Rightarrow> Normal
                | Raises e \<Rightarrow> Raise e
                | Hangs \<Rightarrow> Hang)))"

text \<open>
  How a \<^verbatim>\<open>try\<close> statement completes, given the completion of its body (after
  the handlers) and of its \<^verbatim>\<open>finally\<close> block: a return or an exception of the
  \<^verbatim>\<open>finally\<close> block replaces whatever was pending.
\<close>

definition after_finally :: "completion \<Rightarrow> completion \<Rightarrow> completion" where
  "after_finally pending fin = (case fin of Normal \<Rightarrow> pending | _ \<Rightarrow> fin)"

definition as_outcome :: "completion \<Rightarrow> unit outcome" where
  "as_outcome c =
     (case c of Normal \<Rightarrow> Returns () | Return \<Rightarrow> Returns () | Raise e \<Rightarrow> Raises e | Hang \<Rightarrow> Hangs)"

text \<open>
  \<^verbatim>\<open>_real_main\<close> from \<^verbatim>\<open>await automatic_update.do_early_updates(bot)\<close> on: that
  call is outside the \<^verbatim>\<open>try\<close>. The \<^verbatim>\<open>finally\<close> block runs unless the body
  never completes.
\<close>

definition real_main :: "main_env \<Rightarrow> event list \<times> unit outcome" where
  "real_main env =
     (case early_updates env of
        Raises e \<Rightarrow> ([], Raises e)
      | Hangs \<Rightarrow> ([], Hangs)
      | Returns u \<Rightarrow>
          (case try_body env of
             (ev1, c1) \<Rightarrow>
               (case except_Exception c1 of
                  (ev2, c2) \<Rightarrow>
                    if c2 = Hang then (ev1 @ ev2, Hangs)
                    else
                      (case finally_block env of
                         (ev3, c3) \<Rightarrow> (ev1 @ ev2 @ ev3, as_outcome (after_finally c2 c3))))))"

subsection \<open>Example inputs\<close>

definition example_store :: settings where
  "example_store = Map.empty(7 \<mapsto> Map.empty(''prefix'' \<mapsto> ''!''))"

text \<open>A command table that takes whatever follows the prefix as the command name.\<close>

definition example_dispatcher :: dispatcher where
  "example_dispatcher =
     add_check
       \<lparr>store = example_store, checks = [],
        resolve = (\<lambda>p c. if take (length p) c = p then Some (drop (length p) c) else None)\<rparr>
       only_avaliable"

definition direct_message :: message where
  "direct_message = \<lparr>author_bot = False, guild = None, content = ''-join''\<rparr>"

definition outage_message :: message where
  "outage_message =
     \<lparr>author_bot = False, guild = Some \<lparr>guild_id = 7, unavailable = True\<rparr>, content = ''!join''\<rparr>"

definition new_guild_message :: message where
  "new_guild_message =
     \<lparr>author_bot = False, guild = Some \<lparr>guild_id = 8, unavailable = False\<rparr>, content = ''-join''\<rparr>"

definition fresh_bot :: ttsbot where
  "fresh_bot =
     \<lparr>cache_db = None, pool = None, gtts = None, channels = Map.empty, extensions = [],
      user = None\<rparr>"

text \<open>
  The Redis client is created; the database refuses the connection after 1 time unit;
  the speech client would be ready after 10.
\<close>

definition pool_down_env :: start_env where
  "pool_down_env =
     \<lparr>redis_from_url = Inr 1,
      create_pool = Settles 1 (Inl (Exn True ''ConnectionRefusedError'' ''connect call failed'')),
      gtts_setup = Settles 10 (Inr 3),
      webhook_urls = [(''logs'', ''https://discord.example/api/webhooks/1/x'')],
      webhook_from_url = (\<lambda>u. None),
      listdir = (\<lambda>f. Inr []),
      load_extension = (\<lambda>l n. None),
      deliver = (\<lambda>u n. Returns ()),
      normal_updates = Returns (),
      login = Returns ''TTS Bot#0001'',
      connect = Hangs\<rparr>"

text \<open>
  The login is refused (a wrong token): the task of start fails before the bot is
  ready, and \<^verbatim>\<open>bot.user\<close> was never set.
\<close>

definition login_failure_env :: main_env where
  "login_failure_env =
     \<lparr>early_updates = Returns (),
      race = Returns [BotTask],
      bot_task = Failed (Exn True ''LoginFailure'' ''Improper token has been passed.''),
      bot_user = None,
      bot_channels = Map.empty(''logs'' \<mapsto> ''https://discord.example/api/webhooks/1/x''),
      webhook_deliver = (\<lambda>u n. Returns ()),
      pool_close = Settles 1 (Inr ()),
      cache_close = Settles 1 (Inr ()),
      bot_close = Settles 1 (Inr ())\<rparr>"

text \<open>
  The bot became ready and later stopped cleanly; at shutdown the close of the database
  pool raises after 1 time unit, the other two closes succeed later.
\<close>

definition pool_close_failure_env :: main_env where
  "pool_close_failure_env =
     \<lparr>early_updates = Returns (),
      race = Returns [ReadyTask],
      bot_task = Finished,
      bot_user = Some ''TTS Bot#0001'',
      bot_channels = Map.empty(''logs'' \<mapsto> ''https://discord.example/api/webhooks/1/x''),
      webhook_deliver = (\<lambda>u n. Returns ()),
      pool_close = Settles 1 (Inl (Exn True ''InterfaceError'' ''pool is closing'')),
      cache_close = Settles 2 (Inr ()),
      bot_close = Settles 3 (Inr ())\<rparr>"



text \<open>\<open>shutdown_announced\<close>: the account is known and the shutdown notice went out.\<close>

definition shutdown_announced :: "main_env \<Rightarrow> bool" where
  "shutdown_announced env =
     (case bot_user env of
        None \<Rightarrow> False
      | Some u \<Rightarrow>
          snd (channel_send (bot_channels env) (webhook_deliver env) ''logs'' (ShutdownNotice u))
            = Returns ())"

section \<open>Properties\<close>

subsection \<open>Prefix resolution and command dispatch\<close>

text \<open>
  Claim C8. For a private message (no guild) the prefix resolver returns the fixed
  default trigger "-" whatever the settings store holds; for a message of a shared venue
  whose configuration is unregistered (no row for the guild) or absent (a row without a
  prefix) it returns the default trigger as a value, not an error.
\<close>

theorem prefix_default:
  "(guild m = None \<longrightarrow> prefix st m = Inr ''-'') \<and>
   (\<forall>g. guild m = Some g \<and> st (guild_id g) = None \<longrightarrow> prefix st m = Inr ''-'') \<and>
   (\<forall>g row. guild m = Some g \<and> st (guild_id g) = Some row \<and> row ''prefix'' = None
       \<longrightarrow> prefix st m = Inr ''-'')"
  by (simp add: prefix_def settings_get_def index0_def default_setting_def)

theorem prefix_default_witness:
  "guild direct_message = None \<and> example_store 7 \<noteq> None \<and>
   prefix example_store direct_message = Inr ''-'' \<and>
   guild new_guild_message = Some \<lparr>guild_id = 8, unavailable = False\<rparr> \<and>
   example_store 8 = None \<and>
   prefix example_store new_guild_message = Inr ''-''"
proof -
  have dm: "guild direct_message = None" by (simp add: direct_message_def)
  have ng: "guild new_guild_message = Some \<lparr>guild_id = 8, unavailable = False\<rparr>"
    by (simp add: new_guild_message_def)
  have none: "example_store (guild_id \<lparr>guild_id = 8, unavailable = False\<rparr>) = None"
    by (simp add: example_store_def)
  have p1: "prefix example_store direct_message = Inr ''-''"
    using prefix_default[of direct_message example_store] dm by simp
  have p2: "prefix example_store new_guild_message = Inr ''-''"
    using prefix_default[of new_guild_message example_store] ng none by blast
  from dm ng none p1 p2 show ?thesis by (simp add: example_store_def)
qed

text \<open>
  Claim C7 as stated fails. \<open>outage_message\<close> comes from a human in a guild
  marked unavailable. process_commands has no test of the guild: it builds the context
  and calls \<^verbatim>\<open>self.invoke(ctx)\<close>, so the invocation entry point is reached; only
  inside it does the registered check fail.
\<close>

theorem unavailable_venue_enters_invoke_counterexample:
  "\<not> author_bot outage_message \<and>
   guild outage_message = Some \<lparr>guild_id = 7, unavailable = True\<rparr> \<and>
   process_commands example_dispatcher outage_message =
     ([GetContext TypedGuildContext, InvokeEntered, CheckFailure ''join''], None) \<and>
   InvokeEntered \<in> set (fst (process_commands example_dispatcher outage_message))"
  by (simp add: process_commands_def get_context_def invoke_def prefix_def settings_get_def
        index0_def example_dispatcher_def add_check_def example_store_def outage_message_def
        only_avaliable_def)

text \<open>
  Claim C7, amended. A message whose author is a bot account never gets as far as the
  context or \<^verbatim>\<open>bot.invoke\<close>: process_commands returns at once. A message from a
  human in a guild marked unavailable does reach \<^verbatim>\<open>bot.invoke\<close> (unless building
  the context raises), but its command is never run: with only_avaliable among the
  registered checks, the check fails and the callback of the command is not reached.
\<close>

theorem dispatch_precondition:
  assumes "only_avaliable \<in> set (checks d)"
    and "author_bot m \<or> (\<exists>g. guild m = Some g \<and> unavailable g)"
  shows "CommandRun c \<notin> set (fst (process_commands d m)) \<and>
         (author_bot m \<longrightarrow> process_commands d m = ([], None)) \<and>
         (\<not> author_bot m \<and> snd (process_commands d m) = None \<longrightarrow>
            GetContext TypedGuildContext \<in> set (fst (process_commands d m)) \<and>
            InvokeEntered \<in> set (fst (process_commands d m)))"
proof (cases "author_bot m")
  case True
  then show ?thesis by (simp add: process_commands_def)
next
  case False
  with assms(2) obtain g where g: "guild m = Some g" "unavailable g" by blast
  have fails: "\<not> list_all (\<lambda>chk. chk ctx) (checks d)" if "ctx_guild ctx = Some g" for ctx
  proof -
    have "\<not> only_avaliable ctx" using that g by (simp add: only_avaliable_def)
    with assms(1) show ?thesis by (auto simp: list_all_iff)
  qed
  have no_run: "CommandRun c \<notin> set (fst (process_commands d m))"
    using False g fails
    by (auto simp: process_commands_def get_context_def invoke_def Let_def
             split: sum.splits option.splits)
  have entered: "GetContext TypedGuildContext \<in> set (fst (process_commands d m)) \<and>
                 InvokeEntered \<in> set (fst (process_commands d m))"
    if "snd (process_commands d m) = None"
    using that False g
    by (auto simp: process_commands_def invoke_def Let_def split: sum.splits)
  from False no_run entered show ?thesis by simp
qed

theorem dispatch_precondition_witness:
  "only_avaliable \<in> set (checks example_dispatcher) \<and>
   \<not> author_bot outage_message \<and>
   guild outage_message = Some \<lparr>guild_id = 7, unavailable = True\<rparr> \<and>
   snd (process_commands example_dispatcher outage_message) = None \<and>
   CommandRun ''join'' \<notin> set (fst (process_commands example_dispatcher outage_message)) \<and>
   InvokeEntered \<in> set (fst (process_commands example_dispatcher outage_message)) \<and>
   author_bot (direct_message\<lparr>author_bot := True\<rparr>) \<and>
   process_commands example_dispatcher (direct_message\<lparr>author_bot := True\<rparr>) = ([], None)"
proof -
  have reg: "only_avaliable \<in> set (checks example_dispatcher)"
    by (simp add: example_dispatcher_def add_check_def)
  have human: "\<not> author_bot outage_message"
    and out: "guild outage_message = Some \<lparr>guild_id = 7, unavailable = True\<rparr>"
    by (simp_all add: outage_message_def)
  have ok: "snd (process_commands example_dispatcher outage_message) = None"
    by (simp add: process_commands_def get_context_def prefix_def settings_get_def index0_def
          outage_message_def)
  have unav: "author_bot outage_message \<or> (\<exists>g. guild outage_message = Some g \<and> unavailable g)"
    using out by simp
  have bot: "author_bot (direct_message\<lparr>author_bot := True\<rparr>)" by simp
  have bot': "author_bot (direct_message\<lparr>author_bot := True\<rparr>) \<or>
      (\<exists>g. guild (direct_message\<lparr>author_bot := True\<rparr>) = Some g \<and> unavailable g)"
    by simp
  from dispatch_precondition[OF reg unav, of "''join''"]
       dispatch_precondition[OF reg bot', of "''join''"] reg human out ok bot
  show ?thesis by simp
qed

text \<open>
  Claim C10. only_avaliable returns True for every context without a guild, so for a
  direct message from a human the check registered by \<^verbatim>\<open>_real_main\<close> never
  suppresses dispatch: with only_avaliable as the registered check, the command the
  message names under the prefix "-" is run.
\<close>

theorem only_avaliable_direct_message:
  assumes "guild m = None"
  shows "(\<forall>ctx. ctx_guild ctx = guild m \<longrightarrow> only_avaliable ctx) \<and>
         (\<not> author_bot m \<and> checks d = [only_avaliable] \<longrightarrow>
            process_commands d m =
              (GetContext TypedContext # InvokeEntered #
                 (case resolve d ''-'' (content m) of None \<Rightarrow> [] | Some c \<Rightarrow> [CommandRun c]),
               None))"
  using assms
  by (simp add: only_avaliable_def process_commands_def get_context_def prefix_def invoke_def
           split: option.splits)

theorem only_avaliable_direct_message_witness:
  "guild direct_message = None \<and> \<not> author_bot direct_message \<and>
   checks example_dispatcher = [only_avaliable] \<and>
   only_avaliable
     \<lparr>ctx_message = direct_message, ctx_cls = TypedContext, ctx_guild = None,
      ctx_prefix = ''-'', command = Some ''join''\<rparr> \<and>
   process_commands example_dispatcher direct_message =
     ([GetContext TypedContext, InvokeEntered, CommandRun ''join''], None)"
proof -
  have dm: "guild direct_message = None" and human: "\<not> author_bot direct_message"
    by (simp_all add: direct_message_def)
  have reg: "checks example_dispatcher = [only_avaliable]"
    by (simp add: example_dispatcher_def add_check_def)
  have res: "resolve example_dispatcher ''-'' (content direct_message) = Some ''join''"
    by (simp add: example_dispatcher_def add_check_def direct_message_def)
  from only_avaliable_direct_message[OF dm, of example_dispatcher] dm human reg res
  show ?thesis by simp
qed

subsection \<open>The extension loader\<close>

lemma load_loop_stops:
  assumes "k < length names"
    and "\<forall>i<k. le (loaded @ take i names) (names ! i) = None"
    and "le (loaded @ take k names) (names ! k) = Some e"
  shows "load_loop le loaded names =
           (loaded @ take k names, map LoadExtension (take (Suc k) names), Some e)"
  using assms
proof (induction names arbitrary: loaded k)
  case Nil
  then show ?case by simp
next
  case (Cons n ns)
  show ?case
  proof (cases k)
    case 0
    with Cons.prems show ?thesis by simp
  next
    case (Suc j)
    from Cons.prems(2) Suc have first: "le loaded n = None" by force
    have j: "j < length ns" using Cons.prems(1) Suc by simp
    have before: "\<forall>i<j. le ((loaded @ [n]) @ take i ns) (ns ! i) = None"
    proof (intro allI impI)
      fix i assume "i < j"
      then have "Suc i < k" using Suc by simp
      with Cons.prems(2) have "le (loaded @ take (Suc i) (n # ns)) ((n # ns) ! Suc i) = None"
        by blast
      then show "le ((loaded @ [n]) @ take i ns) (ns ! i) = None" by simp
    qed
    have at: "le ((loaded @ [n]) @ take j ns) (ns ! j) = Some e"
      using Cons.prems(3) Suc by simp
    from Cons.IH[OF j before at] first Suc show ?thesis by simp
  qed
qed

text \<open>When no activation fails, every module is activated, in list order.\<close>

lemma load_loop_all:
  assumes "\<forall>i<length names. le (loaded @ take i names) (names ! i) = None"
  shows "load_loop le loaded names = (loaded @ names, map LoadExtension names, None)"
  using assms
proof (induction names arbitrary: loaded)
  case Nil
  then show ?case by simp
next
  case (Cons n ns)
  from Cons.prems have first: "le loaded n = None" by force
  have rest: "\<forall>i<length ns. le ((loaded @ [n]) @ take i ns) (ns ! i) = None"
  proof (intro allI impI)
    fix i assume "i < length ns"
    then have "Suc i < length (n # ns)" by simp
    with Cons.prems have "le (loaded @ take (Suc i) (n # ns)) ((n # ns) ! Suc i) = None"
      by blast
    then show "le ((loaded @ [n]) @ take i ns) (ns ! i) = None" by simp
  qed
  from Cons.IH[OF rest] first show ?case by simp
qed

text \<open>
  Claim C6. Let the folder list as \<open>files\<close>, so that the loader works through
  \<open>extension_names folder files\<close> in order. If the modules before position \<open>k\<close>
  activate and the activation of module \<open>k\<close> raises \<open>e\<close>, then
  \<^verbatim>\<open>load_extension\<close> has been called for the modules at positions \<open>0..k\<close> and for
  no other: no module after \<open>k\<close> is activated. The loader ends with the exception
  \<open>e\<close> that the activation of module \<open>k\<close> raised (the framework's extension errors
  carry the module name and the cause), and the modules before \<open>k\<close> stay active.
\<close>

theorem loader_aborts_at_failure:
  assumes "ls folder = Inr files"
    and "k < length (extension_names folder files)"
    and "\<forall>i<k. le (loaded @ take i (extension_names folder files))
                  (extension_names folder files ! i) = None"
    and "le (loaded @ take k (extension_names folder files))
            (extension_names folder files ! k) = Some e"
  shows "load_extensions le ls loaded folder =
           (loaded @ take k (extension_names folder files),
            map LoadExtension (take (Suc k) (extension_names folder files)),
            Some e)"
  using assms by (simp add: load_extensions_def load_loop_stops)

theorem loader_aborts_at_failure_witness:
  "extension_names ''cogs'' [''a.py'', ''README.md'', ''b.py'', ''c.py'']
     = [''cogs.a'', ''cogs.b'', ''cogs.c''] \<and>
   load_extensions
     (\<lambda>l n. if n = ''cogs.b'' then Some (Exn True ''ExtensionFailed'' ''cogs.b'') else None)
     (\<lambda>f. Inr [''a.py'', ''README.md'', ''b.py'', ''c.py'']) [] ''cogs''
     = ([''cogs.a''], [LoadExtension ''cogs.a'', LoadExtension ''cogs.b''],
        Some (Exn True ''ExtensionFailed'' ''cogs.b''))"
proof -
  let ?le = "\<lambda>(l::string list) n.
      if n = ''cogs.b'' then Some (Exn True ''ExtensionFailed'' ''cogs.b'') else None"
  let ?ls = "\<lambda>f::string. (Inr [''a.py'', ''README.md'', ''b.py'', ''c.py''] :: exn + string list)"
  let ?files = "[''a.py'', ''README.md'', ''b.py'', ''c.py'']"
  have names: "extension_names ''cogs'' ?files = [''cogs.a'', ''cogs.b'', ''cogs.c'']"
    by (simp add: extension_names_def extension_name_def endswith_def)
  have h1: "?ls ''cogs'' = Inr ?files" by simp
  have h2: "1 < length (extension_names ''cogs'' ?files)" by (simp add: names)
  have h3: "\<forall>i<1. ?le ([] @ take i (extension_names ''cogs'' ?files))
                       (extension_names ''cogs'' ?files ! i) = None"
    by (simp add: names)
  have h4: "?le ([] @ take 1 (extension_names ''cogs'' ?files))
              (extension_names ''cogs'' ?files ! 1)
            = Some (Exn True ''ExtensionFailed'' ''cogs.b'')"
    by (simp add: names)
  from loader_aborts_at_failure[of ?ls "''cogs''" ?files 1 ?le "[]", OF h1 h2 h3 h4] names
  show ?thesis by (simp add: numeral_2_eq_2)
qed

subsection \<open>Resource acquisition in start\<close>

lemma releases_append: "releases (xs @ ys) = releases xs @ releases ys"
  by (induction xs rule: releases.induct) simp_all

lemma releases_channel_send: "releases (fst (channel_send ch dl name n)) = []"
  by (simp add: channel_send_def split: option.splits outcome.splits)

lemma releases_load_loop: "releases (fst (snd (load_loop le loaded names))) = []"
proof (induction names arbitrary: loaded)
  case Nil
  then show ?case by simp
next
  case (Cons n ns)
  show ?case
  proof (cases "le loaded n")
    case None
    obtain l evs r where rest: "load_loop le (loaded @ [n]) ns = (l, evs, r)"
      by (cases "load_loop le (loaded @ [n]) ns")
    with Cons.IH[of "loaded @ [n]"] have "releases evs = []" by simp
    with None rest show ?thesis by simp
  next
    case (Some e)
    then show ?thesis by simp
  qed
qed

lemma releases_load_extensions:
  "releases (fst (snd (load_extensions le ls loaded folder))) = []"
  by (simp add: load_extensions_def releases_load_loop split: sum.splits)

lemma releases_acquire: "releases (fst (acquire env b)) = []"
  by (simp add: acquire_def Let_def split: sum.splits awaitable.splits list.splits)

lemma releases_announce: "releases (fst (announce_and_serve env b)) = []"
proof -
  obtain evs r where
    cs: "channel_send (channels b) (deliver env) ''logs'' StartingNotice = (evs, r)"
    by (cases "channel_send (channels b) (deliver env) ''logs'' StartingNotice")
  have "releases evs = []"
    using releases_channel_send[of "channels b" "deliver env" "''logs''" StartingNotice] cs
    by simp
  then show ?thesis
    by (simp add: announce_and_serve_def cs releases_append split: outcome.splits)
qed

lemma releases_configure: "releases (fst (configure_and_serve env b)) = []"
proof -
  obtain ch r0 where
    fc: "fill_channels (webhook_from_url env) (webhook_urls env) (channels b) = (ch, r0)"
    by (cases "fill_channels (webhook_from_url env) (webhook_urls env) (channels b)")
  obtain l1 ev1 r1 where
    c: "load_extensions (load_extension env) (listdir env)
          (extensions (b\<lparr>channels := ch\<rparr>)) ''cogs'' = (l1, ev1, r1)"
    by (cases "load_extensions (load_extension env) (listdir env)
                 (extensions (b\<lparr>channels := ch\<rparr>)) ''cogs''")
  obtain l2 ev2 r2 where
    x: "load_extensions (load_extension env) (listdir env) l1 ''extensions'' = (l2, ev2, r2)"
    by (cases "load_extensions (load_extension env) (listdir env) l1 ''extensions''")
  obtain ev3 b3 r3 where
    a: "announce_and_serve env (b\<lparr>channels := ch, extensions := l2\<rparr>) = (ev3, b3, r3)"
    by (cases "announce_and_serve env (b\<lparr>channels := ch, extensions := l2\<rparr>)")
  have e1: "releases ev1 = []"
    using releases_load_extensions[of "load_extension env" "listdir env"
            "extensions (b\<lparr>channels := ch\<rparr>)" "''cogs''"] c
    by simp
  have e2: "releases ev2 = []"
    using releases_load_extensions[of "load_extension env" "listdir env" l1 "''extensions''"] x
    by simp
  have e3: "releases ev3 = []"
    using releases_announce[of env "b\<lparr>channels := ch, extensions := l2\<rparr>"] a by simp
  show ?thesis
    using fc c x a e1 e2 e3
    by (simp add: configure_and_serve_def Let_def releases_append split: option.splits)
qed

text \<open>start never closes anything, however it ends.\<close>

lemma start_never_releases: "releases (fst (start env b)) = []"
proof -
  obtain ev0 b1 r where acq: "acquire env b = (ev0, b1, r)" by (cases "acquire env b")
  obtain ev1 b2 r' where cfg: "configure_and_serve env b1 = (ev1, b2, r')"
    by (cases "configure_and_serve env b1")
  have "releases ev0 = []" using releases_acquire[of env b] acq by simp
  moreover have "releases ev1 = []" using releases_configure[of env b1] cfg by simp
  ultimately show ?thesis
    by (simp add: start_def acq cfg releases_append split: awaitable.splits sum.splits)
qed

lemma gather_first_failure:
  "first_failure aws = Some (t, e) \<Longrightarrow> gather aws = Settles t (Inl e)"
  by (simp add: gather_def)

lemma acquire_failure:
  assumes "redis_from_url env = Inr c"
    and "first_failure [create_pool env, gtts_setup env] = Some (t, e)"
  shows "acquire env b =
           ([Created Cache, Started Pool, Started Gtts], b\<lparr>cache_db := Some c\<rparr>,
            Settles t (Inl e))"
  using assms by (simp add: acquire_def gather_first_failure)

lemma acquire_success:
  assumes "redis_from_url env = Inr c"
    and "create_pool env = Settles tp (Inr p)" and "gtts_setup env = Settles tg (Inr g)"
  shows "acquire env b =
           ([Created Cache, Started Pool, Started Gtts],
            b\<lparr>cache_db := Some c, pool := Some p, gtts := Some g\<rparr>,
            Settles (max tp tg) (Inr ()))"
  using assms by (simp add: acquire_def gather_def)

text \<open>
  Claim C2 as stated fails. In \<open>pool_down_env\<close> the Redis client is created and the
  pool creation then fails: start ends with the pool's exception, it has made no close
  call, and the bot still holds the cache handle.
\<close>

theorem acquisition_leak_counterexample:
  "start pool_down_env fresh_bot =
     ([Created Cache, Started Pool, Started Gtts], fresh_bot\<lparr>cache_db := Some 1\<rparr>,
      Raises (Exn True ''ConnectionRefusedError'' ''connect call failed'')) \<and>
   releases (fst (start pool_down_env fresh_bot)) = [] \<and>
   held (fst (snd (start pool_down_env fresh_bot))) = [(Cache, 1)]"
  by (simp add: start_def acquire_def gather_def pool_down_env_def fresh_bot_def held_def)

text \<open>
  Claim C2, amended. If an acquisition fails, start propagates that failure at once,
  running none of its later steps and releasing nothing: when the Redis factory raises,
  nothing has been acquired; when the pool or the speech client fails, the cache client
  created before stays in \<^verbatim>\<open>bot.cache_db\<close>. If all three succeed, the bot holds
  all three handles. start makes no close call on any path.
\<close>

theorem acquisition_failure_releases_nothing:
  "(\<forall>e. redis_from_url env = Inl e \<longrightarrow> start env b = ([], b, Raises e)) \<and>
   (\<forall>c t e. redis_from_url env = Inr c \<and>
        first_failure [create_pool env, gtts_setup env] = Some (t, e) \<longrightarrow>
        start env b =
          ([Created Cache, Started Pool, Started Gtts], b\<lparr>cache_db := Some c\<rparr>, Raises e)) \<and>
   (\<forall>c tp p tg g. redis_from_url env = Inr c \<and>
        create_pool env = Settles tp (Inr p) \<and> gtts_setup env = Settles tg (Inr g) \<longrightarrow>
        held (fst (snd (acquire env b))) = [(Cache, c), (Pool, p), (Gtts, g)]) \<and>
   releases (fst (start env b)) = []"
proof (intro conjI allI impI)
  fix e assume "redis_from_url env = Inl e"
  then show "start env b = ([], b, Raises e)" by (simp add: start_def acquire_def)
next
  fix c t e
  assume "redis_from_url env = Inr c \<and>
          first_failure [create_pool env, gtts_setup env] = Some (t, e)"
  then show "start env b =
      ([Created Cache, Started Pool, Started Gtts], b\<lparr>cache_db := Some c\<rparr>, Raises e)"
    by (simp add: start_def acquire_failure)
next
  fix c tp p tg g
  assume "redis_from_url env = Inr c \<and>
          create_pool env = Settles tp (Inr p) \<and> gtts_setup env = Settles tg (Inr g)"
  then show "held (fst (snd (acquire env b))) = [(Cache, c), (Pool, p), (Gtts, g)]"
    by (simp add: acquire_success held_def)
next
  show "releases (fst (start env b)) = []" by (rule start_never_releases)
qed

theorem acquisition_failure_releases_nothing_witness:
  "redis_from_url pool_down_env = Inr 1 \<and>
   first_failure [create_pool pool_down_env, gtts_setup pool_down_env]
     = Some (1, Exn True ''ConnectionRefusedError'' ''connect call failed'') \<and>
   snd (snd (start pool_down_env fresh_bot))
     = Raises (Exn True ''ConnectionRefusedError'' ''connect call failed'') \<and>
   cache_db (fst (snd (start pool_down_env fresh_bot))) = Some 1 \<and>
   redis_from_url (pool_down_env\<lparr>create_pool := Settles 4 (Inr 2)\<rparr>) = Inr 1 \<and>
   held (fst (snd (acquire (pool_down_env\<lparr>create_pool := Settles 4 (Inr 2)\<rparr>) fresh_bot)))
     = [(Cache, 1), (Pool, 2), (Gtts, 3)] \<and>
   redis_from_url (pool_down_env\<lparr>redis_from_url := Inl (Exn True ''ValueError'' ''bad URL'')\<rparr>)
     = Inl (Exn True ''ValueError'' ''bad URL'') \<and>
   start (pool_down_env\<lparr>redis_from_url := Inl (Exn True ''ValueError'' ''bad URL'')\<rparr>) fresh_bot
     = ([], fresh_bot, Raises (Exn True ''ValueError'' ''bad URL''))"
proof -
  let ?e = "Exn True ''ConnectionRefusedError'' ''connect call failed''"
  let ?ok = "pool_down_env\<lparr>create_pool := Settles 4 (Inr 2)\<rparr>"
  let ?bad = "pool_down_env\<lparr>redis_from_url := Inl (Exn True ''ValueError'' ''bad URL'')\<rparr>"
  have r: "redis_from_url pool_down_env = Inr 1" by (simp add: pool_down_env_def)
  have f: "first_failure [create_pool pool_down_env, gtts_setup pool_down_env] = Some (1, ?e)"
    by (simp add: pool_down_env_def)
  have ok: "redis_from_url ?ok = Inr 1 \<and> create_pool ?ok = Settles 4 (Inr 2) \<and>
            gtts_setup ?ok = Settles 10 (Inr 3)"
    by (simp add: pool_down_env_def)
  have bad: "redis_from_url ?bad = Inl (Exn True ''ValueError'' ''bad URL'')" by simp
  from acquisition_failure_releases_nothing[of pool_down_env fresh_bot] r f
  have 1: "start pool_down_env fresh_bot =
      ([Created Cache, Started Pool, Started Gtts], fresh_bot\<lparr>cache_db := Some 1\<rparr>, Raises ?e)"
    by blast
  from acquisition_failure_releases_nothing[of ?ok fresh_bot] ok
  have 2: "held (fst (snd (acquire ?ok fresh_bot))) = [(Cache, 1), (Pool, 2), (Gtts, 3)]"
    by blast
  from acquisition_failure_releases_nothing[of ?bad fresh_bot] bad
  have 3: "start ?bad fresh_bot = ([], fresh_bot, Raises (Exn True ''ValueError'' ''bad URL''))"
    by blast
  from r f ok bad 1 2 3 show ?thesis by simp
qed

text \<open>
  Claim C9 as stated fails. In \<open>pool_down_env\<close> the cache client has been created
  before the other two creations are even started, and the failure of the pool creation
  is observed at time 1, while the speech client settles only at time 10.
\<close>

theorem acquisition_not_all_settled_counterexample:
  "fst (acquire pool_down_env fresh_bot) = [Created Cache, Started Pool, Started Gtts] \<and>
   snd (snd (acquire pool_down_env fresh_bot))
     = Settles 1 (Inl (Exn True ''ConnectionRefusedError'' ''connect call failed'')) \<and>
   gtts_setup pool_down_env = Settles 10 (Inr 3)"
  by (simp add: acquire_def gather_def pool_down_env_def)

text \<open>
  Claim C9, amended. The cache client is created first, by a synchronous call: if that
  call raises, neither of the other creations is started. Otherwise the database pool
  and the speech client are created concurrently, both started before either is awaited.
  When both succeed, the result is observed once both have settled (at the later of the
  two times, not their sum). When one fails, the failure is observed as soon as it
  occurs, whether or not the other has settled: the pool's failure unless the speech
  client failed strictly earlier, the speech client's failure if it comes strictly
  before any failure of the pool.
\<close>

theorem acquisition_order:
  "(\<forall>e. redis_from_url env = Inl e \<longrightarrow> acquire env b = ([], b, Settles 0 (Inl e))) \<and>
   (\<forall>c. redis_from_url env = Inr c \<longrightarrow>
        fst (acquire env b) = [Created Cache, Started Pool, Started Gtts]) \<and>
   (\<forall>c tp p tg g. redis_from_url env = Inr c \<and>
        create_pool env = Settles tp (Inr p) \<and> gtts_setup env = Settles tg (Inr g) \<longrightarrow>
        snd (snd (acquire env b)) = Settles (max tp tg) (Inr ())) \<and>
   (\<forall>c tp e. redis_from_url env = Inr c \<and> create_pool env = Settles tp (Inl e) \<and>
        (\<forall>tg e'. gtts_setup env = Settles tg (Inl e') \<longrightarrow> tp \<le> tg) \<longrightarrow>
        snd (snd (acquire env b)) = Settles tp (Inl e)) \<and>
   (\<forall>c tg e. redis_from_url env = Inr c \<and> gtts_setup env = Settles tg (Inl e) \<and>
        (\<forall>tp e'. create_pool env = Settles tp (Inl e') \<longrightarrow> tg < tp) \<longrightarrow>
        snd (snd (acquire env b)) = Settles tg (Inl e))"
proof (intro conjI allI impI)
  fix e assume "redis_from_url env = Inl e"
  then show "acquire env b = ([], b, Settles 0 (Inl e))" by (simp add: acquire_def)
next
  fix c assume "redis_from_url env = Inr c"
  then show "fst (acquire env b) = [Created Cache, Started Pool, Started Gtts]"
    by (simp add: acquire_def Let_def split: awaitable.splits sum.splits list.splits)
next
  fix c tp p tg g
  assume "redis_from_url env = Inr c \<and>
          create_pool env = Settles tp (Inr p) \<and> gtts_setup env = Settles tg (Inr g)"
  then show "snd (snd (acquire env b)) = Settles (max tp tg) (Inr ())"
    by (simp add: acquire_success)
next
  fix c tp e
  assume h: "redis_from_url env = Inr c \<and> create_pool env = Settles tp (Inl e) \<and>
             (\<forall>tg e'. gtts_setup env = Settles tg (Inl e') \<longrightarrow> tp \<le> tg)"
  have "first_failure [create_pool env, gtts_setup env] = Some (tp, e)"
  proof (cases "gtts_setup env")
    case Never
    with h show ?thesis by simp
  next
    case (Settles tg r)
    with h show ?thesis by (cases r) auto
  qed
  with h show "snd (snd (acquire env b)) = Settles tp (Inl e)" by (simp add: acquire_failure)
next
  fix c tg e
  assume h: "redis_from_url env = Inr c \<and> gtts_setup env = Settles tg (Inl e) \<and>
             (\<forall>tp e'. create_pool env = Settles tp (Inl e') \<longrightarrow> tg < tp)"
  have "first_failure [create_pool env, gtts_setup env] = Some (tg, e)"
  proof (cases "create_pool env")
    case Never
    with h show ?thesis by simp
  next
    case (Settles tp r)
    with h show ?thesis by (cases r) auto
  qed
  with h show "snd (snd (acquire env b)) = Settles tg (Inl e)" by (simp add: acquire_failure)
qed

theorem acquisition_order_witness:
  "redis_from_url pool_down_env = Inr 1 \<and>
   create_pool pool_down_env
     = Settles 1 (Inl (Exn True ''ConnectionRefusedError'' ''connect call failed'')) \<and>
   gtts_setup pool_down_env = Settles 10 (Inr 3) \<and>
   fst (acquire pool_down_env fresh_bot) = [Created Cache, Started Pool, Started Gtts] \<and>
   snd (snd (acquire pool_down_env fresh_bot))
     = Settles 1 (Inl (Exn True ''ConnectionRefusedError'' ''connect call failed'')) \<and>
   snd (snd (acquire (pool_down_env\<lparr>create_pool := Settles 4 (Inr 2)\<rparr>) fresh_bot))
     = Settles 10 (Inr ()) \<and>
   snd (snd (acquire (pool_down_env\<lparr>create_pool := Never,
                        gtts_setup := Settles 2 (Inl (Exn True ''ClientError'' ''''))\<rparr>) fresh_bot))
     = Settles 2 (Inl (Exn True ''ClientError'' '''')) \<and>
   acquire (pool_down_env\<lparr>redis_from_url := Inl (Exn True ''ValueError'' ''bad URL'')\<rparr>) fresh_bot
     = ([], fresh_bot, Settles 0 (Inl (Exn True ''ValueError'' ''bad URL'')))"
proof -
  let ?e = "Exn True ''ConnectionRefusedError'' ''connect call failed''"
  let ?ok = "pool_down_env\<lparr>create_pool := Settles 4 (Inr 2)\<rparr>"
  let ?late = "pool_down_env\<lparr>create_pool := Never,
                 gtts_setup := Settles 2 (Inl (Exn True ''ClientError'' ''''))\<rparr>"
  let ?bad = "pool_down_env\<lparr>redis_from_url := Inl (Exn True ''ValueError'' ''bad URL'')\<rparr>"
  have r: "redis_from_url pool_down_env = Inr 1"
    and p: "create_pool pool_down_env = Settles 1 (Inl ?e)"
    and g: "gtts_setup pool_down_env = Settles 10 (Inr 3)"
    by (simp_all add: pool_down_env_def)
  have pg: "\<forall>tg e'. gtts_setup pool_down_env = Settles tg (Inl e') \<longrightarrow> 1 \<le> tg"
    by (simp add: g)
  have ok: "redis_from_url ?ok = Inr 1 \<and> create_pool ?ok = Settles 4 (Inr 2) \<and>
            gtts_setup ?ok = Settles 10 (Inr 3)"
    by (simp add: pool_down_env_def)
  have late: "redis_from_url ?late = Inr 1 \<and>
              gtts_setup ?late = Settles 2 (Inl (Exn True ''ClientError'' '''')) \<and>
              (\<forall>tp e'. create_pool ?late = Settles tp (Inl e') \<longrightarrow> 2 < tp)"
    by (simp add: pool_down_env_def)
  have bad: "redis_from_url ?bad = Inl (Exn True ''ValueError'' ''bad URL'')" by simp
  from acquisition_order[of pool_down_env fresh_bot] r
  have 1: "fst (acquire pool_down_env fresh_bot) = [Created Cache, Started Pool, Started Gtts]"
    by blast
  from acquisition_order[of pool_down_env fresh_bot] r p pg
  have 2: "snd (snd (acquire pool_down_env fresh_bot)) = Settles 1 (Inl ?e)"
    by blast
  from acquisition_order[of ?ok fresh_bot] ok
  have 3: "snd (snd (acquire ?ok fresh_bot)) = Settles (max 4 10) (Inr ())"
    by blast
  from acquisition_order[of ?late fresh_bot] late
  have 4: "snd (snd (acquire ?late fresh_bot)) = Settles 2 (Inl (Exn True ''ClientError'' ''''))"
    by blast
  from acquisition_order[of ?bad fresh_bot] bad
  have 5: "acquire ?bad fresh_bot
             = ([], fresh_bot, Settles 0 (Inl (Exn True ''ValueError'' ''bad URL'')))"
    by blast
  from r p g 1 2 3 4 5 show ?thesis by simp
qed

text \<open>
  The login comes after the acquisition: whenever start has set \<^verbatim>\<open>bot.user\<close>, the
  three handles and the logs webhook are in place. This is why the shutdown code may
  read \<^verbatim>\<open>bot.pool\<close>, \<^verbatim>\<open>bot.cache_db\<close> and \<^verbatim>\<open>bot.channels["logs"]\<close> once
  it has seen \<^verbatim>\<open>bot.user\<close>.
\<close>

lemma announce_keeps_handles:
  assumes "announce_and_serve env b = (evs, b', r)"
  shows "cache_db b' = cache_db b \<and> pool b' = pool b \<and> gtts b' = gtts b \<and>
         channels b' = channels b \<and>
         (user b' \<noteq> user b \<longrightarrow> channels b ''logs'' \<noteq> None)"
  using assms
  by (auto simp: announce_and_serve_def channel_send_def
           split: option.splits outcome.splits prod.splits)

lemma configure_keeps_handles:
  assumes "configure_and_serve env b = (evs, b', r)"
  shows "cache_db b' = cache_db b \<and> pool b' = pool b \<and> gtts b' = gtts b \<and>
         (user b' \<noteq> user b \<longrightarrow> channels b' ''logs'' \<noteq> None)"
proof -
  obtain ch r0 where
    fc: "fill_channels (webhook_from_url env) (webhook_urls env) (channels b) = (ch, r0)"
    by (cases "fill_channels (webhook_from_url env) (webhook_urls env) (channels b)")
  obtain l1 ev1 r1 where
    c: "load_extensions (load_extension env) (listdir env)
          (extensions (b\<lparr>channels := ch\<rparr>)) ''cogs'' = (l1, ev1, r1)"
    by (cases "load_extensions (load_extension env) (listdir env)
                 (extensions (b\<lparr>channels := ch\<rparr>)) ''cogs''")
  obtain l2 ev2 r2 where
    x: "load_extensions (load_extension env) (listdir env) l1 ''extensions'' = (l2, ev2, r2)"
    by (cases "load_extensions (load_extension env) (listdir env) l1 ''extensions''")
  obtain ev3 b3 r3 where
    a: "announce_and_serve env (b\<lparr>channels := ch, extensions := l2\<rparr>) = (ev3, b3, r3)"
    by (cases "announce_and_serve env (b\<lparr>channels := ch, extensions := l2\<rparr>)")
  from announce_keeps_handles[OF a] assms fc c x a show ?thesis
    by (auto simp: configure_and_serve_def Let_def split: option.splits)
qed

lemma login_after_acquisition:
  assumes "start env b = (evs, b', r)" and "user b' \<noteq> user b"
  shows "cache_db b' \<noteq> None \<and> pool b' \<noteq> None \<and> gtts b' \<noteq> None \<and>
         channels b' ''logs'' \<noteq> None"
proof -
  obtain ev0 b1 r1 where acq: "acquire env b = (ev0, b1, r1)" by (cases "acquire env b")
  obtain ev1 b2 r2 where cfg: "configure_and_serve env b1 = (ev1, b2, r2)"
    by (cases "configure_and_serve env b1")
  have u1: "user b1 = user b"
    using acq by (auto simp: acquire_def Let_def split: sum.splits awaitable.splits list.splits)
  from assms acq cfg u1 obtain t where ok: "r1 = Settles t (Inr ())" and b': "b' = b2"
    by (auto simp: start_def split: awaitable.splits sum.splits)
  have h1: "cache_db b1 \<noteq> None \<and> pool b1 \<noteq> None \<and> gtts b1 \<noteq> None"
    using acq ok by (auto simp: acquire_def Let_def split: sum.splits awaitable.splits list.splits)
  from configure_keeps_handles[OF cfg] h1 assms(2) b' u1 show ?thesis by simp
qed

text \<open>
  A failure in the first tier (cogs) ends start: the second tier is not listed, nothing
  is announced and the bot does not log in.
\<close>

lemma cogs_failure_ends_start:
  assumes "fill_channels (webhook_from_url env) (webhook_urls env) (channels b) = (ch, None)"
    and "load_extensions (load_extension env) (listdir env) (extensions b) ''cogs''
           = (l, evs, Some e)"
  shows "configure_and_serve env b = (evs, b\<lparr>channels := ch, extensions := l\<rparr>, Raises e)"
  using assms by (simp add: configure_and_serve_def)

subsection \<open>The readiness race and the shutdown\<close>

lemma releases_try_body: "releases (fst (try_body env)) = []"
proof -
  obtain evs r where
    cs: "channel_send (bot_channels env) (webhook_deliver env) ''logs'' ReadyNotice = (evs, r)"
    by (cases "channel_send (bot_channels env) (webhook_deliver env) ''logs'' ReadyNotice")
  have "releases evs = []"
    using releases_channel_send[of "bot_channels env" "webhook_deliver env" "''logs''" ReadyNotice]
      cs
    by simp
  then show ?thesis
    by (simp add: try_body_def Let_def cs releases_append
             split: outcome.splits sum.splits option.splits)
qed

lemma releases_except: "releases (fst (except_Exception c)) = []"
  by (simp add: except_Exception_def split: completion.splits)

lemma releases_finally:
  "releases (fst (finally_block env)) =
     (if shutdown_announced env then [Pool, Cache, Connection] else [])"
proof (cases "bot_user env")
  case None
  then show ?thesis by (simp add: finally_block_def shutdown_announced_def)
next
  case (Some u)
  obtain evs r where
    cs: "channel_send (bot_channels env) (webhook_deliver env) ''logs'' (ShutdownNotice u)
           = (evs, r)"
    by (cases "channel_send (bot_channels env) (webhook_deliver env) ''logs'' (ShutdownNotice u)")
  have "releases evs = []"
    using releases_channel_send[of "bot_channels env" "webhook_deliver env" "''logs''"
            "ShutdownNotice u"] cs
    by simp
  then show ?thesis using Some cs
    by (simp add: finally_block_def shutdown_announced_def releases_append split: outcome.splits)
qed

lemma except_Hang: "snd (except_Exception c) = Hang \<longleftrightarrow> c = Hang"
  by (simp add: except_Exception_def split: completion.splits)

text \<open>
  Unless the body of the \<^verbatim>\<open>try\<close> never completes, \<^verbatim>\<open>_real_main\<close> is the body,
  the handler, and the \<^verbatim>\<open>finally\<close> block, one after the other.
\<close>

lemma real_main_events:
  assumes "early_updates env = Returns ()" and "snd (try_body env) \<noteq> Hang"
  shows "fst (real_main env) =
           fst (try_body env) @ fst (except_Exception (snd (try_body env))) @
           fst (finally_block env)"
    and "snd (real_main env) =
           as_outcome (after_finally (snd (except_Exception (snd (try_body env))))
                                     (snd (finally_block env)))"
proof -
  obtain ev1 c1 where tb: "try_body env = (ev1, c1)" by (cases "try_body env")
  obtain ev2 c2 where ex: "except_Exception c1 = (ev2, c2)" by (cases "except_Exception c1")
  obtain ev3 c3 where fb: "finally_block env = (ev3, c3)" by (cases "finally_block env")
  from assms(2) tb ex except_Hang[of c1] have "c2 \<noteq> Hang" by simp
  then show "fst (real_main env) =
           fst (try_body env) @ fst (except_Exception (snd (try_body env))) @
           fst (finally_block env)"
    and "snd (real_main env) =
           as_outcome (after_finally (snd (except_Exception (snd (try_body env))))
                                     (snd (finally_block env)))"
    by (simp_all add: real_main_def assms(1) tb ex fb)
qed

lemma finally_block_events:
  "set (fst (finally_block env)) \<subseteq>
     {Send ''logs'' (ShutdownNotice u) | u. True} \<union> CloseCalled ` UNIV"
  by (auto simp: finally_block_def channel_send_def split: option.splits outcome.splits)

text \<open>
  Claim C1 as stated fails. In \<open>login_failure_env\<close> the race resolves to
  FailedBeforeReady ("Bot shutdown before ready!" is printed), \<^verbatim>\<open>_real_main\<close>
  returns, and no close operation has been called: the guard
  \<^verbatim>\<open>if not bot.user: return\<close> leaves the \<^verbatim>\<open>finally\<close> block first.
\<close>

theorem no_release_before_login_counterexample:
  "Print ''Bot shutdown before ready!'' \<in> set (fst (real_main login_failure_env)) \<and>
   snd (real_main login_failure_env) = Returns () \<and>
   releases (fst (real_main login_failure_env)) = []"
  by (simp add: real_main_def try_body_def task_exception_def except_Exception_def
        finally_block_def after_finally_def as_outcome_def login_failure_env_def)

text \<open>
  Claim C1, amended. On every termination trigger that ends the guarded block of
  \<^verbatim>\<open>_real_main\<close> (the race resolving to FailedBeforeReady, an error or a
  cancellation surfacing from the serve loop, a clean exit), the close operations of the
  database pool, the cache handle and the chat connection are started, in that order and
  together, provided \<^verbatim>\<open>bot.user\<close> is set and the shutdown notice has been
  delivered; when \<^verbatim>\<open>bot.user\<close> is not set (the login never succeeded), no close
  operation is started.
\<close>

theorem shutdown_releases_when_logged_in:
  assumes "early_updates env = Returns ()" and "snd (try_body env) \<noteq> Hang"
  shows "(bot_user env = None \<longrightarrow> releases (fst (real_main env)) = []) \<and>
         (shutdown_announced env \<longrightarrow>
            releases (fst (real_main env)) = [Pool, Cache, Connection])"
proof -
  have "releases (fst (real_main env)) =
          (if shutdown_announced env then [Pool, Cache, Connection] else [])"
    using real_main_events(1)[OF assms]
    by (simp add: releases_append releases_try_body releases_except releases_finally)
  then show ?thesis by (simp add: shutdown_announced_def)
qed

theorem shutdown_releases_when_logged_in_witness:
  "early_updates pool_close_failure_env = Returns () \<and>
   snd (try_body pool_close_failure_env) \<noteq> Hang \<and>
   shutdown_announced pool_close_failure_env \<and>
   releases (fst (real_main pool_close_failure_env)) = [Pool, Cache, Connection] \<and>
   early_updates login_failure_env = Returns () \<and>
   snd (try_body login_failure_env) \<noteq> Hang \<and>
   bot_user login_failure_env = None \<and>
   releases (fst (real_main login_failure_env)) = []"
proof -
  have a1: "early_updates pool_close_failure_env = Returns ()"
    and a2: "snd (try_body pool_close_failure_env) \<noteq> Hang"
    and a3: "shutdown_announced pool_close_failure_env"
    by (simp_all add: pool_close_failure_env_def try_body_def channel_send_def await_task_def
          shutdown_announced_def)
  have b1: "early_updates login_failure_env = Returns ()"
    and b2: "snd (try_body login_failure_env) \<noteq> Hang"
    and b3: "bot_user login_failure_env = None"
    by (simp_all add: login_failure_env_def try_body_def task_exception_def)
  from shutdown_releases_when_logged_in[OF a1 a2] shutdown_releases_when_logged_in[OF b1 b2]
       a1 a2 a3 b1 b2 b3
  show ?thesis by simp
qed

text \<open>
  Claim C3. If the task of \<^verbatim>\<open>bot.start\<close> is among the tasks done when the wait
  returns (it completed before the readiness wait, or with it), and it completed
  successfully or with an error, then \<^verbatim>\<open>_real_main\<close> prints "Bot shutdown before
  ready!", prints the error if there is one, and goes straight to the \<^verbatim>\<open>finally\<close>
  block: the trace is these lines followed by the events of the shutdown, the result is
  that of the shutdown, and neither the "Logged in ... and ready!" line nor the ready
  notice occurs.
\<close>

theorem failed_before_ready:
  assumes "early_updates env = Returns ()"
    and "race env = Returns done" and "BotTask \<in> set done"
    and "task_exception (bot_task env) = Inr error"
  shows "fst (real_main env) =
           [Print (CHR 0x0A # ''Logging into Discord...''), Print ''Bot shutdown before ready!''] @
           (case error of Some e \<Rightarrow> [PrintException e] | None \<Rightarrow> []) @
           fst (finally_block env) \<and>
         snd (real_main env) = as_outcome (after_finally Return (snd (finally_block env))) \<and>
         Send ''logs'' ReadyNotice \<notin> set (fst (real_main env)) \<and>
         Print (''Logged in as '' @ user_str (bot_user env) @ '' and ready!'')
           \<notin> set (fst (real_main env))"
proof -
  have tb: "try_body env =
      ([Print (CHR 0x0A # ''Logging into Discord...''), Print ''Bot shutdown before ready!''] @
         (case error of Some e \<Rightarrow> [PrintException e] | None \<Rightarrow> []), Return)"
    using assms by (simp add: try_body_def)
  have ex: "except_Exception Return = ([], Return)" by (simp add: except_Exception_def)
  have nh: "snd (try_body env) \<noteq> Hang" by (simp add: tb)
  have ev: "fst (real_main env) =
           [Print (CHR 0x0A # ''Logging into Discord...''), Print ''Bot shutdown before ready!''] @
           (case error of Some e \<Rightarrow> [PrintException e] | None \<Rightarrow> []) @ fst (finally_block env)"
    and out: "snd (real_main env) = as_outcome (after_finally Return (snd (finally_block env)))"
    using real_main_events[OF assms(1) nh] by (simp_all add: tb ex)
  have no_ready: "Send ''logs'' ReadyNotice \<notin> set (fst (real_main env))"
    using finally_block_events[of env] by (auto simp: ev split: option.splits)
  have no_logged: "Print (''Logged in as '' @ user_str (bot_user env) @ '' and ready!'')
                     \<notin> set (fst (real_main env))"
    using finally_block_events[of env] by (auto simp: ev split: option.splits)
  from ev out no_ready no_logged show ?thesis by simp
qed

theorem failed_before_ready_witness:
  "early_updates login_failure_env = Returns () \<and>
   race login_failure_env = Returns [BotTask] \<and>
   BotTask \<in> set [BotTask] \<and>
   task_exception (bot_task login_failure_env)
     = Inr (Some (Exn True ''LoginFailure'' ''Improper token has been passed.'')) \<and>
   real_main login_failure_env =
     ([Print (CHR 0x0A # ''Logging into Discord...''), Print ''Bot shutdown before ready!'',
       PrintException (Exn True ''LoginFailure'' ''Improper token has been passed.'')],
      Returns ()) \<and>
   Send ''logs'' ReadyNotice \<notin> set (fst (real_main login_failure_env))"
proof -
  let ?e = "Exn True ''LoginFailure'' ''Improper token has been passed.''"
  have h1: "early_updates login_failure_env = Returns ()"
    and h2: "race login_failure_env = Returns [BotTask]"
    and h4: "task_exception (bot_task login_failure_env) = Inr (Some ?e)"
    by (simp_all add: login_failure_env_def task_exception_def)
  have h3: "BotTask \<in> set [BotTask]" by simp
  have fb: "finally_block login_failure_env = ([], Return)"
    by (simp add: finally_block_def login_failure_env_def)
  from failed_before_ready[OF h1 h2 h3 h4] h1 h2 h4
  show ?thesis by (simp add: fb after_finally_def as_outcome_def prod_eq_iff)
qed







text \<open>
  Claim C5 as stated fails. In \<open>pool_close_failure_env\<close> the close of the database
  pool raises during shutdown. Nothing is printed about it (the trace ends with the three
  close calls), and the exception leaves \<^verbatim>\<open>_real_main\<close>: the failure is escalated,
  not logged.
\<close>

theorem release_failure_escalates_counterexample:
  "real_main pool_close_failure_env =
     ([Print (CHR 0x0A # ''Logging into Discord...''),
       Print ''Logged in as TTS Bot#0001 and ready!'',
       Send ''logs'' ReadyNotice,
       Send ''logs'' (ShutdownNotice ''TTS Bot#0001''),
       CloseCalled Pool, CloseCalled Cache, CloseCalled Connection],
      Raises (Exn True ''InterfaceError'' ''pool is closing''))"
  by (simp add: real_main_def try_body_def channel_send_def await_task_def user_str_def
        except_Exception_def finally_block_def gather_def wait_for_def after_finally_def
        as_outcome_def pool_close_failure_env_def)

text \<open>
  Claim C5, amended. During shutdown, the first failure among the three release
  operations, when it occurs within the deadline of 5 time units, is not logged by
  \<^verbatim>\<open>_real_main\<close>: it ends the wait for the releases at once and leaves
  \<^verbatim>\<open>_real_main\<close> as its exception. The trace of \<^verbatim>\<open>_real_main\<close> ends with the
  shutdown notice and the three close calls; nothing is printed after them.
\<close>

theorem release_failure_propagates:
  assumes "early_updates env = Returns ()" and "snd (try_body env) \<noteq> Hang"
    and "bot_user env = Some u"
    and "channel_send (bot_channels env) (webhook_deliver env) ''logs'' (ShutdownNotice u)
           = (evs, Returns ())"
    and "first_failure [pool_close env, cache_close env, bot_close env] = Some (t, e)"
    and "t \<le> 5"
  shows "snd (real_main env) = Raises e \<and>
         fst (real_main env) =
           fst (try_body env) @ fst (except_Exception (snd (try_body env))) @ evs @
           [CloseCalled Pool, CloseCalled Cache, CloseCalled Connection]"
proof -
  have g: "gather [pool_close env, cache_close env, bot_close env] = Settles t (Inl e)"
    using assms(5) by (rule gather_first_failure)
  have fb: "finally_block env =
      (evs @ [CloseCalled Pool, CloseCalled Cache, CloseCalled Connection], Raise e)"
    using assms(3,4,6) by (simp add: finally_block_def g wait_for_def)
  show ?thesis
    using real_main_events[OF assms(1,2)]
    by (simp add: fb after_finally_def as_outcome_def)
qed

theorem release_failure_propagates_witness:
  "early_updates pool_close_failure_env = Returns () \<and>
   snd (try_body pool_close_failure_env) \<noteq> Hang \<and>
   bot_user pool_close_failure_env = Some ''TTS Bot#0001'' \<and>
   first_failure [pool_close pool_close_failure_env, cache_close pool_close_failure_env,
                  bot_close pool_close_failure_env]
     = Some (1, Exn True ''InterfaceError'' ''pool is closing'') \<and>
   snd (real_main pool_close_failure_env) = Raises (Exn True ''InterfaceError'' ''pool is closing'')"
proof -
  let ?e = "Exn True ''InterfaceError'' ''pool is closing''"
  have h1: "early_updates pool_close_failure_env = Returns ()"
    and h2: "snd (try_body pool_close_failure_env) \<noteq> Hang"
    and h3: "bot_user pool_close_failure_env = Some ''TTS Bot#0001''"
    and h4: "channel_send (bot_channels pool_close_failure_env)
               (webhook_deliver pool_close_failure_env) ''logs'' (ShutdownNotice ''TTS Bot#0001'')
             = ([Send ''logs'' (ShutdownNotice ''TTS Bot#0001'')], Returns ())"
    and h5: "first_failure [pool_close pool_close_failure_env, cache_close pool_close_failure_env,
                            bot_close pool_close_failure_env] = Some (1, ?e)"
    by (simp_all add: pool_close_failure_env_def try_body_def channel_send_def await_task_def)
  have h6: "(1::rat) \<le> 5" by simp
  from release_failure_propagates[OF h1 h2 h3 h4 h5 h6] h1 h2 h3 h5
  show ?thesis by simp
qed

end
